theory Spec2Isabelle
  imports Complex_Main "HOL-Library.Word"
begin

section \<open>Strings\<close>

text \<open>
  A JavaScript string is a sequence of UTF-16 code units: \<open>length\<close> is the number of
  code units and \<open>substring\<close> cuts between code units. \<open>js\<close> turns a HOL string
  literal (one byte per character) into the JavaScript string with the same code units.
\<close>

type_synonym jsstring = "16 word list"

definition js :: "string \<Rightarrow> jsstring" where
  "js s = map of_char s"

definition NL :: "16 word" where
  "NL = 0x0A"

text \<open>
  The class \<open>\s\<close> of a JavaScript regular expression: the white space and the line
  terminators of ECMAScript (tab, line feed, vertical tab, form feed, carriage return,
  space, no-break space, the Unicode space separators, line and paragraph separator, and
  the byte order mark).
\<close>

definition isSpace :: "16 word \<Rightarrow> bool" where
  "isSpace c = (c \<in> {0x09, 0x0A, 0x0B, 0x0C, 0x0D, 0x20, 0xA0, 0x1680,
                      0x2000, 0x2001, 0x2002, 0x2003, 0x2004, 0x2005, 0x2006, 0x2007,
                      0x2008, 0x2009, 0x200A, 0x2028, 0x2029, 0x202F, 0x205F, 0x3000,
                      0xFEFF})"

section \<open>Chunker\<close>

text \<open>
  \<open>text.split(/\n\s*\n/)\<close>. \<open>starNL\<close> matches \<open>\s*\n\<close> at the head of a string
  the way a backtracking matcher does: the star takes a white-space character and goes on
  when it can, and gives it back to the final \<open>\n\<close> when the rest does not match.
  \<open>matchSep\<close> matches the whole separator at the head of a string. Both return what
  follows the match.
\<close>

fun starNL :: "jsstring \<Rightarrow> jsstring option" where
  "starNL [] = None"
| "starNL (c # cs) =
     (if isSpace c
      then (case starNL cs of
              Some r \<Rightarrow> Some r
            | None \<Rightarrow> (if c = NL then Some cs else None))
      else None)"

fun matchSep :: "jsstring \<Rightarrow> jsstring option" where
  "matchSep [] = None"
| "matchSep (c # cs) = (if c = NL then starNL cs else None)"

text \<open>
  The split itself: the piece read so far is \<open>acc\<close>; at every position the separator
  is tried, the leftmost match ends the piece and the scan goes on behind the match; the
  last piece is kept even when it is empty. The separator never matches the empty string,
  so the empty text splits into the one empty paragraph.
\<close>

function splitLoop :: "jsstring \<Rightarrow> jsstring \<Rightarrow> jsstring list" where
  "splitLoop acc [] = [acc]"
| "splitLoop acc (c # cs) =
     (case matchSep (c # cs) of
        Some r \<Rightarrow> acc # splitLoop [] r
      | None \<Rightarrow> splitLoop (acc @ [c]) cs)"
  by pat_completeness auto
termination
proof (relation "measure (\<lambda>(acc, s). length s)")
  have star: "starNL s = Some r \<Longrightarrow> length r < Suc (length s)" for s r
    by (induction s arbitrary: r) (auto split: if_splits option.splits)
  show "wf (measure (\<lambda>(acc, s). length s))"
    by simp
  show "((acc @ [c], cs), (acc, c # cs)) \<in> measure (\<lambda>(acc, s). length s)"
    for acc :: jsstring and c cs
    by simp
  show "(([], r), (acc, c # cs)) \<in> measure (\<lambda>(acc, s). length s)"
    if "matchSep (c # cs) = Some r" for acc :: jsstring and c cs r
    using that star [of cs r] by (auto split: if_splits)
qed

definition split_paragraphs :: "jsstring \<Rightarrow> jsstring list" where
  "split_paragraphs t = splitLoop [] t"

text \<open>
  The loop of \<open>VectorStore.chunkText\<close> over the paragraphs, with its two variables
  \<open>chunks\<close> and \<open>currentChunk\<close>. A string is truthy when it is not empty;
  \<open>substring(0, maxChunkSize)\<close> is \<open>take\<close>, a negative bound counting as 0.
\<close>

fun chunkLoop :: "jsstring list \<Rightarrow> jsstring list \<Rightarrow> jsstring \<Rightarrow> int
                    \<Rightarrow> jsstring list \<times> jsstring" where
  "chunkLoop [] chunks currentChunk maxChunkSize = (chunks, currentChunk)"
| "chunkLoop (paragraph # ps) chunks currentChunk maxChunkSize =
     (if int (length (currentChunk @ paragraph)) \<le> maxChunkSize
      then chunkLoop ps chunks
             (currentChunk @ (if currentChunk \<noteq> [] then [NL, NL] else []) @ paragraph)
             maxChunkSize
      else if currentChunk \<noteq> []
      then chunkLoop ps (chunks @ [currentChunk]) paragraph maxChunkSize
      else chunkLoop ps (chunks @ [take (nat maxChunkSize) paragraph]) [] maxChunkSize)"

definition chunkText :: "jsstring \<Rightarrow> int \<Rightarrow> jsstring list" where
  "chunkText t maxChunkSize =
     (case chunkLoop (split_paragraphs t) [] [] maxChunkSize of
        (chunks, currentChunk) \<Rightarrow>
          if currentChunk \<noteq> [] then chunks @ [currentChunk] else chunks)"

text \<open>
  The copy of the function in the test files, which ends with
  \<open>return chunks.length > 0 ? chunks : [text]\<close>.
\<close>

definition chunkText_test :: "jsstring \<Rightarrow> int \<Rightarrow> jsstring list" where
  "chunkText_test t maxChunkSize =
     (let chunks = chunkText t maxChunkSize in if chunks \<noteq> [] then chunks else [t])"

section \<open>Vector store\<close>

text \<open>
  The class \<open>VectorStore\<close> of the server (the version on \<open>hnswlib-node\<close>). Numbers
  are kept abstract: the type \<open>'n\<close> stands for the JavaScript numbers of vectors,
  distances and scores, and the store uses nothing of it but \<open>1\<close>, \<open>+\<close>, \<open>/\<close> and the
  comparison, so what is proved holds for floating point as for the reals. Counts and
  indices are natural numbers.

  An operation returns, throws, or (when the store never becomes initialised) stays
  pending in \<open>waitForInitialization\<close>. The operations are run one at a time.
\<close>

datatype error =
    EmbeddingFailed  \<comment> \<open>\<open>Error('Failed to generate embedding for query')\<close>\<close>
  | IndexError       \<comment> \<open>an exception of the index library\<close>

datatype 'a outcome = Returned 'a | Threw error | Pending

record 'n Document =
  id_doc :: nat
  file_doc :: jsstring
  chunkId :: nat
  text_doc :: jsstring
  vector_doc :: "'n list option"

text \<open>
  The index object belongs to a library. It is represented by what the store has done to
  it: the points added since it was created, each with its label. What the library
  answers is a parameter of the model: whether \<open>addPoint\<close> accepts a point (it throws
  otherwise, the index being left as it was), and what \<open>searchKnn\<close> returns (\<open>None\<close>
  when it throws).
\<close>

type_synonym 'n points = "('n list \<times> nat) list"

record 'n knn =
  neighbors :: "nat list"
  distances :: "'n list"

record 'n backend =
  addPoint_ok :: "'n points \<Rightarrow> 'n list \<Rightarrow> nat \<Rightarrow> bool"
  searchKnn :: "'n points \<Rightarrow> 'n list \<Rightarrow> int \<Rightarrow> 'n knn option"

text \<open>
  The embedding model is a library object too: a function from the text to the vector
  (its answer depends on the text only), \<open>None\<close> when the call throws. The field is
  \<open>None\<close> while it is undefined.
\<close>

record 'n VectorStore =
  embeddingModel :: "(jsstring \<Rightarrow> 'n list option) option"
  documents :: "'n Document list"
  index :: "'n points option"
  initialized :: bool
  fileTypes :: "jsstring \<rightharpoonup> nat"

definition newVectorStore :: "'n VectorStore" where
  "newVectorStore =
     \<lparr>embeddingModel = None, documents = [], index = None, initialized = False,
      fileTypes = Map.empty\<rparr>"

text \<open>
  \<open>init\<close> runs once, started by the constructor. Its \<open>try\<close> block can be left at three
  places: loading the model, constructing the index, and \<open>initIndex\<close>.
\<close>

datatype 'n loading =
    PipelineFailed
  | ConstructorFailed "jsstring \<Rightarrow> 'n list option"
  | InitIndexFailed "jsstring \<Rightarrow> 'n list option"
  | Loaded "jsstring \<Rightarrow> 'n list option"

fun init :: "'n loading \<Rightarrow> 'n VectorStore \<Rightarrow> 'n VectorStore" where
  "init PipelineFailed st = st\<lparr>initialized := False\<rparr>"
| "init (ConstructorFailed m) st = st\<lparr>embeddingModel := Some m, initialized := False\<rparr>"
| "init (InitIndexFailed m) st =
     st\<lparr>embeddingModel := Some m, index := Some [], initialized := False\<rparr>"
| "init (Loaded m) st =
     st\<lparr>embeddingModel := Some m, index := Some [], initialized := True\<rparr>"

definition generateEmbedding :: "'n VectorStore \<Rightarrow> jsstring \<Rightarrow> 'n list option" where
  "generateEmbedding st t = (case embeddingModel st of None \<Rightarrow> None | Some m \<Rightarrow> m t)"

text \<open>
  The loop of \<open>addDocument\<close> over the chunks, \<open>i\<close> being the position of the chunk at
  the head. An exception of \<open>addPoint\<close> leaves the loop with the store as it is then.
\<close>

fun addChunks :: "'n backend \<Rightarrow> jsstring \<Rightarrow> nat \<Rightarrow> jsstring list \<Rightarrow> 'n VectorStore
                    \<Rightarrow> 'n VectorStore \<times> unit outcome" where
  "addChunks B file i [] st = (st, Returned ())"
| "addChunks B file i (chunk # chunks) st =
     (let doc = \<lparr>id_doc = length (documents st), file_doc = file, chunkId = i,
                 text_doc = chunk, vector_doc = None\<rparr>
      in case generateEmbedding st chunk of
           None \<Rightarrow> addChunks B file (Suc i) chunks st
         | Some embedding \<Rightarrow>
             (case index st of
                None \<Rightarrow>
                  addChunks B file (Suc i) chunks
                    (st\<lparr>documents := documents st @ [doc\<lparr>vector_doc := Some embedding\<rparr>]\<rparr>)
              | Some pts \<Rightarrow>
                  if addPoint_ok B pts embedding (length (documents st))
                  then addChunks B file (Suc i) chunks
                         (st\<lparr>index := Some (pts @ [(embedding, length (documents st))]),
                             documents :=
                               documents st @ [doc\<lparr>vector_doc := Some embedding\<rparr>]\<rparr>)
                  else (st, Threw IndexError)))"

text \<open>
  \<open>ext\<close> is \<open>path.extname(file).toLowerCase()\<close>, a function of the platform. It
  returns the empty string or a string that starts with a dot, so the object
  \<open>fileTypes\<close> is read at its own keys only and is a map. \<open>extCount\<close> is the
  expression \<open>this.fileTypes[fileExt] || 0\<close>.
\<close>

definition extCount :: "'n VectorStore \<Rightarrow> jsstring \<Rightarrow> nat" where
  "extCount st fileExt = (case fileTypes st fileExt of None \<Rightarrow> 0 | Some n \<Rightarrow> n)"

definition addDocument :: "'n backend \<Rightarrow> (jsstring \<Rightarrow> jsstring) \<Rightarrow> jsstring \<Rightarrow> jsstring
                             \<Rightarrow> 'n VectorStore \<Rightarrow> 'n VectorStore \<times> unit outcome" where
  "addDocument B ext file t st =
     (if \<not> initialized st then (st, Pending)
      else
        let fileExt = ext file;
            st1 = st\<lparr>fileTypes := (fileTypes st)(fileExt \<mapsto> extCount st fileExt + 1)\<rparr>
        in addChunks B file 0 (chunkText t 512) st1)"

text \<open>\<open>this.documents[idx]\<close>, undefined out of range.\<close>

definition document_at :: "'a list \<Rightarrow> nat \<Rightarrow> 'a option" where
  "document_at ds idx = (if idx < length ds then Some (ds ! idx) else None)"

record 'n SearchResult =
  score :: 'n
  document :: "'n Document option"

text \<open>
  \<open>search\<close> reads the store and writes nothing. The callback of \<open>map\<close> reads
  \<open>distances[i]\<close> for the \<open>i\<close>-th neighbour; a neighbour without a distance would get a
  score that is not a number and fails every comparison, so the result is the same as
  over the pairs of \<open>zip\<close>.
\<close>

definition search :: "'n::{one,plus,inverse,ord} backend \<Rightarrow> 'n VectorStore \<Rightarrow> jsstring
                        \<Rightarrow> int \<Rightarrow> 'n \<Rightarrow> 'n SearchResult list outcome" where
  "search B st query numResults threshold =
     (if \<not> initialized st then Pending
      else
        case index st of
          None \<Rightarrow> Returned []
        | Some pts \<Rightarrow>
            if documents st = [] then Returned []
            else
              (case generateEmbedding st query of
                 None \<Rightarrow> Threw EmbeddingFailed
               | Some queryEmbedding \<Rightarrow>
                   (let k = min numResults (int (length (documents st))) in
                    case searchKnn B pts queryEmbedding k of
                      None \<Rightarrow> Threw IndexError
                    | Some searchResults \<Rightarrow>
                        Returned
                          (filter (\<lambda>result. threshold \<le> score result)
                             (map (\<lambda>(idx, distance).
                                     \<lparr>score = 1 / (1 + distance),
                                      document = document_at (documents st) idx\<rparr>)
                                (zip (neighbors searchResults)
                                   (distances searchResults)))))))"

definition clear :: "'n VectorStore \<Rightarrow> 'n VectorStore" where
  "clear st =
     st\<lparr>documents := [],
        index := (if initialized st then Some [] else index st),
        fileTypes := Map.empty\<rparr>"

record Stats =
  documentCount :: nat
  fileTypes_stats :: "jsstring \<rightharpoonup> nat"

definition getStats :: "'n VectorStore \<Rightarrow> Stats" where
  "getStats st = \<lparr>documentCount = length (documents st), fileTypes_stats = fileTypes st\<rparr>"

text \<open>A \<open>Set\<close> keeps its elements in the order of their first insertion.\<close>

fun uniqueFiles :: "jsstring list \<Rightarrow> 'n Document list \<Rightarrow> jsstring list" where
  "uniqueFiles seen [] = seen"
| "uniqueFiles seen (doc # docs) =
     uniqueFiles (if file_doc doc \<in> set seen then seen else seen @ [file_doc doc]) docs"

definition getIndexedFiles :: "'n VectorStore \<Rightarrow> jsstring list" where
  "getIndexedFiles st = uniqueFiles [] (documents st)"

text \<open>
  The loop of the tool \<open>index_directory\<close> over the files: one call of \<open>addDocument\<close>
  after the other, an exception of one call being caught before the next.
\<close>

fun addDocuments :: "'n backend \<Rightarrow> (jsstring \<Rightarrow> jsstring) \<Rightarrow> (jsstring \<times> jsstring) list
                       \<Rightarrow> 'n VectorStore \<Rightarrow> 'n VectorStore" where
  "addDocuments B ext [] st = st"
| "addDocuments B ext ((file, t) # rest) st =
     addDocuments B ext rest (fst (addDocument B ext file t st))"

section \<open>The stored chunks and the invariant\<close>

text \<open>
  The chunks of a text that \<open>addDocument\<close> stores when nothing throws in the index: the
  chunks whose embedding succeeds, each with its position among all chunks and its
  vector.
\<close>

fun embedded :: "(jsstring \<Rightarrow> 'n list option) \<Rightarrow> nat \<Rightarrow> jsstring list
                   \<Rightarrow> (nat \<times> jsstring \<times> 'n list) list" where
  "embedded m i [] = []"
| "embedded m i (chunk # chunks) =
     (case m chunk of
        None \<Rightarrow> embedded m (Suc i) chunks
      | Some e \<Rightarrow> (i, chunk, e) # embedded m (Suc i) chunks)"

text \<open>The documents made of them, numbered from \<open>n\<close> on.\<close>

fun stored :: "jsstring \<Rightarrow> nat \<Rightarrow> (nat \<times> jsstring \<times> 'n list) list \<Rightarrow> 'n Document list" where
  "stored file n [] = []"
| "stored file n ((i, chunk, e) # rest) =
     \<lparr>id_doc = n, file_doc = file, chunkId = i, text_doc = chunk, vector_doc = Some e\<rparr>
       # stored file (Suc n) rest"

text \<open>
  Those of one call of \<open>addDocument\<close>: the chunks of the text, at the bound 512, that the
  store can embed.
\<close>

definition embeddedChunks :: "'n VectorStore \<Rightarrow> jsstring \<Rightarrow> (nat \<times> jsstring \<times> 'n list) list" where
  "embeddedChunks st t = embedded (generateEmbedding st) 0 (chunkText t 512)"

text \<open>
  The index is offered the points one after the other, each under the next id, and the
  loop ends at the first that it refuses: \<open>accepted\<close> counts the points taken before
  that, \<open>pts\<close> being the points in the index and \<open>n\<close> the next id. \<open>kept\<close> is the
  number of chunks that a call stores: all of them when the store has no index.
\<close>

fun accepted :: "'n backend \<Rightarrow> 'n points \<Rightarrow> nat \<Rightarrow> (nat \<times> jsstring \<times> 'n list) list \<Rightarrow> nat" where
  "accepted B pts n [] = 0"
| "accepted B pts n ((i, chunk, e) # rest) =
     (if addPoint_ok B pts e n then Suc (accepted B (pts @ [(e, n)]) (Suc n) rest) else 0)"

definition kept :: "'n backend \<Rightarrow> 'n VectorStore \<Rightarrow> (nat \<times> jsstring \<times> 'n list) list \<Rightarrow> nat" where
  "kept B st xs =
     (case index st of
        None \<Rightarrow> length xs
      | Some pts \<Rightarrow> accepted B pts (length (documents st)) xs)"

text \<open>The point of a document in the index: its vector under its id.\<close>

definition point_of :: "'n Document \<Rightarrow> 'n list \<times> nat" where
  "point_of d = (case vector_doc d of Some e \<Rightarrow> (e, id_doc d) | None \<Rightarrow> ([], id_doc d))"

text \<open>
  The invariant of the store: the \<open>i\<close>-th document has the id \<open>i\<close> and a vector; an
  initialised store has an index, which holds the point of every document, in order; a
  store that is not initialised holds no document and no point.
\<close>

definition store_inv :: "'n VectorStore \<Rightarrow> bool" where
  "store_inv st =
     (map id_doc (documents st) = [0..<length (documents st)]
      \<and> list_all (\<lambda>d. vector_doc d \<noteq> None) (documents st)
      \<and> (if initialized st then index st = Some (map point_of (documents st))
         else documents st = [] \<and> (index st = None \<or> index st = Some [])))"

text \<open>The number of points in the index, none when there is no index.\<close>

definition indexed_count :: "'n VectorStore \<Rightarrow> nat" where
  "indexed_count st = (case index st of None \<Rightarrow> 0 | Some pts \<Rightarrow> length pts)"

text \<open>The library returns labels of points that were added, and nothing else.\<close>

definition labels_sound :: "'n backend \<Rightarrow> bool" where
  "labels_sound B =
     (\<forall>pts q k res. searchKnn B pts q k = Some res
        \<longrightarrow> set (neighbors res) \<subseteq> snd ` set pts)"

section \<open>An index by exhaustive scan, for the examples\<close>

text \<open>
  A stand-in for the library in the examples below: it accepts every point and answers a
  query for \<open>k\<close> neighbours, \<open>k\<close> from 1 to 1000, with the \<open>k\<close> closest points by
  squared Euclidean distance, closest first.
\<close>

definition sqdist :: "real list \<Rightarrow> real list \<Rightarrow> real" where
  "sqdist u v = sum_list (map (\<lambda>(a, b). (a - b) * (a - b)) (zip u v))"

definition scanIndex :: "real backend" where
  "scanIndex =
     \<lparr>addPoint_ok = (\<lambda>pts e l. True),
      searchKnn = (\<lambda>pts q k.
        if k \<le> 0 \<or> 1000 < k then None
        else
          let found = take (nat k) (sort_key (\<lambda>(v, l). sqdist q v) pts)
          in Some \<lparr>neighbors = map snd found,
                   distances = map (\<lambda>(v, l). sqdist q v) found\<rparr>)\<rparr>"

text \<open>The same with room for \<open>cap\<close> points only, as after \<open>initIndex(cap)\<close>.\<close>

definition cappedIndex :: "nat \<Rightarrow> real backend" where
  "cappedIndex cap = scanIndex\<lparr>addPoint_ok := (\<lambda>pts e l. length pts < cap)\<rparr>"

text \<open>
  Two embedding models for the examples: one that maps a text to the vector of its length
  and fails on a text of three code units, and one that always fails.
\<close>

definition lengthModel :: "jsstring \<Rightarrow> real list option" where
  "lengthModel t = (if length t = 3 then None else Some [real (length t)])"

definition failingModel :: "jsstring \<Rightarrow> real list option" where
  "failingModel t = None"

text \<open>The extension of the two file names of the examples.\<close>

definition extOf :: "jsstring \<Rightarrow> jsstring" where
  "extOf file = (if file = js ''a.txt'' \<or> file = js ''b.txt'' then js ''.txt'' else js '''')"

text \<open>
  Two texts: two paragraphs of 300 and 250 characters, which make two chunks; and three
  paragraphs of 510, 3 and 511 characters, which make three chunks, the middle one being
  the text that \<open>lengthModel\<close> fails on. And two stores after \<open>init\<close>, one for each
  model.
\<close>

definition twoParagraphs :: jsstring where
  "twoParagraphs = replicate 300 0x61 @ [NL, NL] @ replicate 250 0x62"

definition threeParagraphs :: jsstring where
  "threeParagraphs = replicate 510 0x61 @ [NL, NL] @ js ''bad'' @ [NL, NL] @ replicate 511 0x62"

definition readyStore :: "real VectorStore" where
  "readyStore = init (Loaded lengthModel) newVectorStore"

definition failingStore :: "real VectorStore" where
  "failingStore = init (Loaded failingModel) newVectorStore"

definition filledStore :: "real VectorStore" where
  "filledStore = fst (addDocument scanIndex extOf (js ''a.txt'') threeParagraphs readyStore)"

section \<open>The loop of addDocument\<close>

lemma addChunks_frame:
  "fileTypes (fst (addChunks B file i cs st)) = fileTypes st
   \<and> initialized (fst (addChunks B file i cs st)) = initialized st
   \<and> embeddingModel (fst (addChunks B file i cs st)) = embeddingModel st"
  by (induction cs arbitrary: i st) (auto simp: Let_def generateEmbedding_def split: option.splits)

text \<open>
  What the loop does, whatever the library answers: it stores the chunks that can be
  embedded, in their order, up to the first point that the index refuses.
\<close>

lemma generateEmbedding_cong:
  "embeddingModel st' = embeddingModel st \<Longrightarrow> generateEmbedding st' = generateEmbedding st"
  by (rule ext) (simp add: generateEmbedding_def)

lemma accepted_le: "accepted B pts n xs \<le> length xs"
  by (induction xs arbitrary: pts n) auto

lemma kept_le: "kept B st xs \<le> length xs"
  by (simp add: kept_def accepted_le split: option.splits)

lemma addChunks_exact:
  "documents (fst (addChunks B file i cs st))
     = documents st @ stored file (length (documents st))
         (take (kept B st (embedded (generateEmbedding st) i cs))
            (embedded (generateEmbedding st) i cs))
   \<and> index (fst (addChunks B file i cs st))
     = map_option (\<lambda>pts. pts @ map point_of (stored file (length (documents st))
         (take (kept B st (embedded (generateEmbedding st) i cs))
            (embedded (generateEmbedding st) i cs)))) (index st)
   \<and> snd (addChunks B file i cs st)
     = (if kept B st (embedded (generateEmbedding st) i cs)
            = length (embedded (generateEmbedding st) i cs)
        then Returned () else Threw IndexError)"
proof (induction cs arbitrary: i st)
  case Nil
  then show ?case by (simp add: kept_def option.map_ident split: option.splits)
next
  case (Cons c cs)
  show ?case
  proof (cases "generateEmbedding st c")
    case None
    then show ?thesis using Cons [of "Suc i" st] by (simp add: Let_def)
  next
    case (Some e)
    let ?d = "\<lparr>id_doc = length (documents st), file_doc = file, chunkId = i,
                 text_doc = c, vector_doc = Some e\<rparr>"
    let ?E = "embedded (generateEmbedding st) (Suc i) cs"
    show ?thesis
    proof (cases "index st")
      case None
      let ?st2 = "st\<lparr>documents := documents st @ [?d]\<rparr>"
      have g: "generateEmbedding ?st2 = generateEmbedding st"
        by (rule generateEmbedding_cong) simp
      have step: "addChunks B file i (c # cs) st = addChunks B file (Suc i) cs ?st2"
        using Some None by (simp add: Let_def)
      have k: "kept B ?st2 ?E = length ?E" "kept B st ((i, c, e) # ?E) = Suc (length ?E)"
        using None by (simp_all add: kept_def)
      show ?thesis
        using Cons [of "Suc i" ?st2] Some None k unfolding step g
        by simp
    next
      case (Some pts)
      show ?thesis
      proof (cases "addPoint_ok B pts e (length (documents st))")
        case True
        let ?st2 = "st\<lparr>index := Some (pts @ [(e, length (documents st))]),
                    documents := documents st @ [?d]\<rparr>"
        have g: "generateEmbedding ?st2 = generateEmbedding st"
          by (rule generateEmbedding_cong) simp
        have step: "addChunks B file i (c # cs) st = addChunks B file (Suc i) cs ?st2"
          using \<open>generateEmbedding st c = Some e\<close> Some True by (simp add: Let_def)
        have k: "kept B st ((i, c, e) # ?E) = Suc (kept B ?st2 ?E)"
          using Some True by (simp add: kept_def)
        show ?thesis
          using Cons [of "Suc i" ?st2] \<open>generateEmbedding st c = Some e\<close> Some k
          unfolding step g
          by (simp add: point_of_def)
      next
        case False
        have k: "kept B st ((i, c, e) # ?E) = 0"
          using Some False by (simp add: kept_def)
        show ?thesis
          using \<open>generateEmbedding st c = Some e\<close> Some False k
          by (simp add: Let_def)
      qed
    qed
  qed
qed

lemma stored_text:
  "map text_doc (stored file n (embedded m i cs)) = filter (\<lambda>c. m c \<noteq> None) cs"
  by (induction cs arbitrary: n i) (auto split: option.splits)

lemma stored_ids: "map id_doc (stored file n xs) = [n ..< n + length xs]"
  by (induction xs arbitrary: n) (auto simp add: upt_conv_Cons simp del: upt_Suc)

lemma stored_take: "stored file n (take j xs) = take j (stored file n xs)"
proof (induction xs arbitrary: n j)
  case Nil
  then show ?case by simp
next
  case (Cons x xs)
  then show ?case by (cases x; cases j) simp_all
qed

lemma stored_length: "length (stored file n xs) = length xs"
  by (induction xs arbitrary: n) auto

lemma stored_embedded_chunks:
  "list_all (\<lambda>d. file_doc d = file \<and> i \<le> chunkId d \<and> chunkId d - i < length cs
                 \<and> text_doc d = cs ! (chunkId d - i)
                 \<and> vector_doc d = m (text_doc d) \<and> vector_doc d \<noteq> None)
     (stored file n (embedded m i cs))"
proof (induction cs arbitrary: n i)
  case Nil
  then show ?case by simp
next
  case (Cons c cs)
  have tail: "list_all (\<lambda>d. file_doc d = file \<and> i \<le> chunkId d
                 \<and> chunkId d - i < length (c # cs)
                 \<and> text_doc d = (c # cs) ! (chunkId d - i)
                 \<and> vector_doc d = m (text_doc d) \<and> vector_doc d \<noteq> None)
     (stored file n' (embedded m (Suc i) cs))" for n'
    unfolding list_all_iff
  proof
    fix d
    assume "d \<in> set (stored file n' (embedded m (Suc i) cs))"
    with Cons [of "Suc i" n'] have h: "file_doc d = file" "Suc i \<le> chunkId d"
      "chunkId d - Suc i < length cs" "text_doc d = cs ! (chunkId d - Suc i)"
      "vector_doc d = m (text_doc d)" "vector_doc d \<noteq> None"
      unfolding list_all_iff by blast+
    from h(2) have "chunkId d - i = Suc (chunkId d - Suc i)"
      by simp
    with h show "file_doc d = file \<and> i \<le> chunkId d \<and> chunkId d - i < length (c # cs)
                 \<and> text_doc d = (c # cs) ! (chunkId d - i)
                 \<and> vector_doc d = m (text_doc d) \<and> vector_doc d \<noteq> None"
      by simp
  qed
  show ?case
    using tail by (cases "m c") simp_all
qed

lemma accepted_all:
  assumes "\<forall>k < length xs.
             addPoint_ok B (pts @ map point_of (stored file n (take k xs)))
               (snd (snd (xs ! k))) (n + k)"
  shows "accepted B pts n xs = length xs"
  using assms
proof (induction xs arbitrary: pts n)
  case Nil
  then show ?case by simp
next
  case (Cons x xs)
  obtain i c e where x: "x = (i, c, e)" by (cases x)
  from Cons.prems [rule_format, of 0] x have ok: "addPoint_ok B pts e n" by simp
  have "accepted B (pts @ [(e, n)]) (Suc n) xs = length xs"
  proof (rule Cons.IH, intro allI impI)
    fix k assume "k < length xs"
    with Cons.prems [rule_format, of "Suc k"] x
    show "addPoint_ok B ((pts @ [(e, n)]) @ map point_of (stored file (Suc n) (take k xs)))
            (snd (snd (xs ! k))) (Suc n + k)"
      by (simp add: point_of_def)
  qed
  with ok x show ?case by simp
qed


lemma addDocument_exact:
  assumes "initialized st"
  shows "documents (fst (addDocument B ext file t st))
           = documents st @ stored file (length (documents st))
               (take (kept B st (embeddedChunks st t)) (embeddedChunks st t))
         \<and> index (fst (addDocument B ext file t st))
           = map_option (\<lambda>pts. pts @ map point_of (stored file (length (documents st))
               (take (kept B st (embeddedChunks st t)) (embeddedChunks st t)))) (index st)
         \<and> snd (addDocument B ext file t st)
           = (if kept B st (embeddedChunks st t) = length (embeddedChunks st t)
              then Returned () else Threw IndexError)"
proof -
  let ?st1 = "st\<lparr>fileTypes := (fileTypes st)(ext file \<mapsto> extCount st (ext file) + 1)\<rparr>"
  have run: "addDocument B ext file t st = addChunks B file 0 (chunkText t 512) ?st1"
    using assms by (simp add: addDocument_def Let_def)
  have g: "generateEmbedding ?st1 = generateEmbedding st"
    by (rule generateEmbedding_cong) simp
  have k: "kept B ?st1 xs = kept B st xs" for xs
    by (simp add: kept_def split: option.splits)
  show ?thesis
    using addChunks_exact [of B "file" 0 "chunkText t 512" ?st1]
    unfolding run g k embeddedChunks_def by simp
qed

lemma embeddedChunks_chunks:
  "list_all (\<lambda>d. file_doc d = file \<and> chunkId d < length (chunkText t 512)
                 \<and> text_doc d = chunkText t 512 ! chunkId d
                 \<and> vector_doc d = generateEmbedding st (text_doc d) \<and> vector_doc d \<noteq> None)
     (stored file n (take j (embeddedChunks st t)))"
proof -
  have "set (stored file n (take j (embeddedChunks st t)))
          \<subseteq> set (stored file n (embeddedChunks st t))"
    unfolding stored_take by (rule set_take_subset)
  then show ?thesis
    using stored_embedded_chunks [of "file" 0 "chunkText t 512" "generateEmbedding st" n]
    unfolding list_all_iff embeddedChunks_def by auto
qed

section \<open>The invariant\<close>

lemma store_inv_push:
  assumes "store_inv st" "initialized st" "index st = Some pts"
  shows "store_inv (st\<lparr>index := Some (pts @ [(e, length (documents st))]),
            documents := documents st @ [\<lparr>id_doc = length (documents st), file_doc = f,
               chunkId = i, text_doc = c, vector_doc = Some e\<rparr>]\<rparr>)"
  using assms by (simp add: store_inv_def point_of_def)

lemma addChunks_inv:
  "store_inv st \<Longrightarrow> initialized st \<Longrightarrow> store_inv (fst (addChunks B file i cs st))"
proof (induction cs arbitrary: i st)
  case Nil
  then show ?case by simp
next
  case (Cons c cs)
  from Cons.prems obtain pts where pts: "index st = Some pts"
    by (auto simp: store_inv_def)
  show ?case
  proof (cases "generateEmbedding st c")
    case None
    then show ?thesis using Cons by (simp add: Let_def)
  next
    case (Some e)
    show ?thesis
    proof (cases "addPoint_ok B pts e (length (documents st))")
      case True
      have "store_inv (fst (addChunks B file (Suc i) cs
              (st\<lparr>index := Some (pts @ [(e, length (documents st))]),
                  documents := documents st @ [\<lparr>id_doc = length (documents st), file_doc = file,
                  chunkId = i, text_doc = c, vector_doc = Some e\<rparr>]\<rparr>)))"
        by (rule Cons.IH) (use Cons.prems pts in \<open>simp_all add: store_inv_push\<close>)
      then show ?thesis using Some pts True by (simp add: Let_def)
    next
      case False
      then show ?thesis using Some pts Cons.prems by (simp add: Let_def)
    qed
  qed
qed

lemma addDocument_inv: "store_inv st \<Longrightarrow> store_inv (fst (addDocument B ext file t st))"
proof (cases "initialized st")
  case False
  assume "store_inv st"
  then show ?thesis using False by (simp add: addDocument_def)
next
  case True
  assume inv: "store_inv st"
  let ?st1 = "st\<lparr>fileTypes := (fileTypes st)(ext file \<mapsto> extCount st (ext file) + 1)\<rparr>"
  have "store_inv ?st1" "initialized ?st1"
    using inv True by (simp_all add: store_inv_def)
  then have "store_inv (fst (addChunks B file 0 (chunkText t 512) ?st1))"
    by (rule addChunks_inv)
  then show ?thesis using True by (simp add: addDocument_def Let_def)
qed

lemma clear_inv: "store_inv st \<Longrightarrow> store_inv (clear st)"
  by (simp add: store_inv_def clear_def)

lemma new_inv: "store_inv newVectorStore"
  by (simp add: store_inv_def newVectorStore_def)

lemma init_inv: "store_inv st \<Longrightarrow> \<not> initialized st \<Longrightarrow> store_inv (init l st)"
  by (cases l) (auto simp: store_inv_def)

lemma addDocuments_inv: "store_inv st \<Longrightarrow> store_inv (addDocuments B ext calls st)"
  by (induction calls arbitrary: st) (auto simp: addDocument_inv)

lemma store_inv_nth:
  assumes "store_inv st" "i < length (documents st)"
  shows "id_doc (documents st ! i) = i \<and> vector_doc (documents st ! i) \<noteq> None"
proof -
  from assms(1) have ids: "map id_doc (documents st) = [0..<length (documents st)]"
    and vs: "list_all (\<lambda>d. vector_doc d \<noteq> None) (documents st)"
    by (simp_all add: store_inv_def)
  from ids assms(2) have "id_doc (documents st ! i) = i"
    by (metis nth_map nth_upt add_0)
  with vs assms(2) show ?thesis by (simp add: list_all_length)
qed

lemma store_inv_count: "store_inv st \<Longrightarrow> indexed_count st = length (documents st)"
  by (auto simp: store_inv_def indexed_count_def split: if_splits)

lemma store_inv_document_at:
  assumes "store_inv st" "index st = Some pts" "idx \<in> snd ` set pts"
  shows "\<exists>d. document_at (documents st) idx = Some d \<and> d \<in> set (documents st)
             \<and> id_doc d = idx \<and> vector_doc d \<noteq> None"
proof -
  from assms(1) have ids: "map id_doc (documents st) = [0..<length (documents st)]"
    and vs: "list_all (\<lambda>d. vector_doc d \<noteq> None) (documents st)"
    by (simp_all add: store_inv_def)
  have "snd ` set pts \<subseteq> id_doc ` set (documents st)"
  proof (cases "initialized st")
    case True
    with assms(1,2) have "pts = map point_of (documents st)"
      by (simp add: store_inv_def)
    then show ?thesis
      by (auto simp: point_of_def split: option.splits)
  next
    case False
    with assms(1,2) show ?thesis
      by (auto simp: store_inv_def)
  qed
  also have "id_doc ` set (documents st) = {0..<length (documents st)}"
    using ids by (metis set_map set_upt)
  finally have lt: "idx < length (documents st)" using assms(3) by auto
  then have "id_doc (documents st ! idx) = idx"
    using ids by (metis nth_map nth_upt add_0)
  with lt vs show ?thesis
    by (auto simp: document_at_def list_all_length)
qed

section \<open>What search returns\<close>

lemma search_returned:
  fixes threshold :: "'n::{one,plus,inverse,ord}"
  assumes "search B st query numResults threshold = Returned results" and "results \<noteq> []"
  obtains pts q res where "index st = Some pts" "generateEmbedding st query = Some q"
    "searchKnn B pts q (min numResults (int (length (documents st)))) = Some res"
    "results = filter (\<lambda>result. threshold \<le> score result)
               (map (\<lambda>(idx, distance). \<lparr>score = 1 / (1 + distance),
                        document = document_at (documents st) idx\<rparr>)
                  (zip (neighbors res) (distances res)))"
  using assms by (auto simp: search_def Let_def split: if_splits option.splits)

lemma search_hydrates:
  fixes threshold :: "'n::{one,plus,inverse,ord}"
  assumes "store_inv st" "labels_sound B"
    and "search B st query numResults threshold = Returned results"
    and "r \<in> set results"
  shows "\<exists>d. document r = Some d \<and> d \<in> set (documents st) \<and> vector_doc d \<noteq> None"
proof -
  from assms(4) have "results \<noteq> []" by auto
  with assms(3) obtain pts q res where
    ix: "index st = Some pts"
    and res: "searchKnn B pts q (min numResults (int (length (documents st)))) = Some res"
    and rs: "results = filter (\<lambda>result. threshold \<le> score result)
               (map (\<lambda>(idx, distance). \<lparr>score = 1 / (1 + distance),
                        document = document_at (documents st) idx\<rparr>)
                  (zip (neighbors res) (distances res)))"
    by (rule search_returned)
  from assms(4) rs obtain idx d where
    pair: "(idx, d) \<in> set (zip (neighbors res) (distances res))"
    and r: "document r = document_at (documents st) idx"
    by auto
  from pair have "idx \<in> set (neighbors res)" by (rule set_zip_leftD)
  with assms(2) res have "idx \<in> snd ` set pts"
    unfolding labels_sound_def by blast
  with assms(1) ix r show ?thesis
    using store_inv_document_at [of st pts idx] by auto
qed

section \<open>The examples, evaluated\<close>

lemma splitLoop_plain:
  "NL \<notin> set xs \<Longrightarrow> splitLoop acc (xs @ rest) = splitLoop (acc @ xs) rest"
  by (induction xs arbitrary: acc) auto

lemma splitLoop_blank:
  "\<not> isSpace y \<Longrightarrow> splitLoop acc (NL # NL # y # ys) = acc # splitLoop [] (y # ys)"
  by (simp add: isSpace_def NL_def)

lemma splitLoop_last: "NL \<notin> set xs \<Longrightarrow> splitLoop acc xs = [acc @ xs]"
  using splitLoop_plain [of xs acc "[]"] by simp

lemma split_two_paragraphs:
  assumes "NL \<notin> set xs" "NL \<notin> set (y # ys)" "\<not> isSpace y"
  shows "split_paragraphs (xs @ [NL, NL] @ y # ys) = [xs, y # ys]"
proof -
  have "splitLoop [] (xs @ [NL, NL] @ y # ys) = splitLoop xs (NL # NL # y # ys)"
    using splitLoop_plain [OF assms(1), of "[]" "[NL, NL] @ y # ys"] by simp
  also have "\<dots> = xs # splitLoop [] (y # ys)"
    by (rule splitLoop_blank) (rule assms)
  also have "splitLoop [] (y # ys) = [y # ys]"
    using splitLoop_last [OF assms(2), of "[]"] by simp
  finally show ?thesis by (simp add: split_paragraphs_def)
qed

lemma split_three_paragraphs:
  assumes "NL \<notin> set xs" "NL \<notin> set (y # ys)" "\<not> isSpace y"
    "NL \<notin> set (z # zs)" "\<not> isSpace z"
  shows "split_paragraphs (xs @ [NL, NL] @ (y # ys) @ [NL, NL] @ z # zs) = [xs, y # ys, z # zs]"
proof -
  have "splitLoop [] (xs @ [NL, NL] @ (y # ys) @ [NL, NL] @ z # zs)
          = splitLoop xs (NL # NL # y # (ys @ [NL, NL] @ z # zs))"
    using splitLoop_plain [OF assms(1), of "[]" "[NL, NL] @ (y # ys) @ [NL, NL] @ z # zs"]
    by simp
  also have "\<dots> = xs # splitLoop [] (y # (ys @ [NL, NL] @ z # zs))"
    by (rule splitLoop_blank) (rule assms)
  also have "splitLoop [] (y # (ys @ [NL, NL] @ z # zs)) = splitLoop (y # ys) (NL # NL # z # zs)"
    using splitLoop_plain [OF assms(2), of "[]" "[NL, NL] @ z # zs"] by simp
  also have "\<dots> = (y # ys) # splitLoop [] (z # zs)"
    by (rule splitLoop_blank) (rule assms)
  also have "splitLoop [] (z # zs) = [z # zs]"
    using splitLoop_last [OF assms(4), of "[]"] by simp
  finally show ?thesis by (simp add: split_paragraphs_def)
qed

lemma replicate_pred: "0 < n \<Longrightarrow> replicate n x = x # replicate (n - 1) x"
  by (cases n) simp_all

lemma chunkText_twoParagraphs:
  "chunkText twoParagraphs 512 = [replicate 300 0x61, replicate 250 0x62]"
proof -
  have b: "replicate 250 (0x62 :: 16 word) = 0x62 # replicate 249 0x62"
    by (simp add: replicate_pred)
  have "split_paragraphs twoParagraphs = [replicate 300 0x61, 0x62 # replicate 249 0x62]"
    unfolding twoParagraphs_def b
    by (rule split_two_paragraphs) (simp_all add: NL_def isSpace_def)
  then show ?thesis by (simp add: chunkText_def b)
qed

lemma chunkText_threeParagraphs:
  "chunkText threeParagraphs 512 = [replicate 510 0x61, js ''bad'', replicate 511 0x62]"
proof -
  have bad: "js ''bad'' = [0x62, 0x61, 0x64]"
    by (simp add: js_def)
  have b: "replicate 511 (0x62 :: 16 word) = 0x62 # replicate 510 0x62"
    by (simp add: replicate_pred)
  have "split_paragraphs threeParagraphs
          = [replicate 510 0x61, 0x62 # [0x61, 0x64], 0x62 # replicate 510 0x62]"
    unfolding threeParagraphs_def bad b
    by (rule split_three_paragraphs) (simp_all add: NL_def isSpace_def)
  then show ?thesis by (simp add: chunkText_def bad b)
qed

lemma readyStore_eq:
  "readyStore = \<lparr>embeddingModel = Some lengthModel, documents = [], index = Some [],
                  initialized = True, fileTypes = Map.empty\<rparr>"
  by (simp add: readyStore_def newVectorStore_def)

lemma embeddedChunks_readyStore_three:
  "embeddedChunks readyStore threeParagraphs
     = [(0, replicate 510 0x61, [510]), (2, replicate 511 0x62, [511])]"
  by (simp add: embeddedChunks_def chunkText_threeParagraphs generateEmbedding_def
        readyStore_eq lengthModel_def js_def)

lemma failingStore_eq:
  "failingStore = \<lparr>embeddingModel = Some failingModel, documents = [], index = Some [],
                  initialized = True, fileTypes = Map.empty\<rparr>"
  by (simp add: failingStore_def newVectorStore_def)

lemma extOf_a: "extOf (js ''a.txt'') = js ''.txt''"
  by (simp add: extOf_def)

lemma extOf_b: "extOf (js ''b.txt'') = js ''.txt''"
  by (simp add: extOf_def)

lemma addDocument_threeParagraphs:
  "addDocument scanIndex extOf (js ''a.txt'') threeParagraphs readyStore =
     (\<lparr>embeddingModel = Some lengthModel,
      documents =
        [\<lparr>id_doc = 0, file_doc = js ''a.txt'', chunkId = 0, text_doc = replicate 510 0x61,
          vector_doc = Some [510]\<rparr>,
         \<lparr>id_doc = 1, file_doc = js ''a.txt'', chunkId = 2, text_doc = replicate 511 0x62,
          vector_doc = Some [511]\<rparr>],
      index = Some [([510], 0), ([511], 1)],
      initialized = True,
      fileTypes = [js ''.txt'' \<mapsto> 1]\<rparr>, Returned ())"
  by (simp add: readyStore_eq addDocument_def Let_def
        chunkText_threeParagraphs generateEmbedding_def lengthModel_def scanIndex_def
        extOf_a extCount_def) (simp add: js_def)

lemma filledStore_eq:
  "filledStore =
     \<lparr>embeddingModel = Some lengthModel,
      documents =
        [\<lparr>id_doc = 0, file_doc = js ''a.txt'', chunkId = 0, text_doc = replicate 510 0x61,
          vector_doc = Some [510]\<rparr>,
         \<lparr>id_doc = 1, file_doc = js ''a.txt'', chunkId = 2, text_doc = replicate 511 0x62,
          vector_doc = Some [511]\<rparr>],
      index = Some [([510], 0), ([511], 1)],
      initialized = True,
      fileTypes = [js ''.txt'' \<mapsto> 1]\<rparr>"
  by (simp add: filledStore_def addDocument_threeParagraphs)

lemma addDocument_twoParagraphs:
  "addDocument scanIndex extOf (js ''b.txt'') twoParagraphs readyStore =
     (\<lparr>embeddingModel = Some lengthModel,
      documents =
        [\<lparr>id_doc = 0, file_doc = js ''b.txt'', chunkId = 0, text_doc = replicate 300 0x61,
          vector_doc = Some [300]\<rparr>,
         \<lparr>id_doc = 1, file_doc = js ''b.txt'', chunkId = 1, text_doc = replicate 250 0x62,
          vector_doc = Some [250]\<rparr>],
      index = Some [([300], 0), ([250], 1)],
      initialized = True,
      fileTypes = [js ''.txt'' \<mapsto> 1]\<rparr>, Returned ())"
  by (simp add: readyStore_eq addDocument_def Let_def
        chunkText_twoParagraphs generateEmbedding_def lengthModel_def scanIndex_def
        extOf_b extCount_def)

lemma search_filledStore:
  "search scanIndex filledStore (replicate 510 0x71) 5 (7 / 10)
     = Returned [\<lparr>score = 1, document = Some \<lparr>id_doc = 0, file_doc = js ''a.txt'', chunkId = 0,
          text_doc = replicate 510 0x61, vector_doc = Some [510]\<rparr>\<rparr>]"
  by (simp add: search_def filledStore_eq generateEmbedding_def lengthModel_def scanIndex_def
        Let_def sqdist_def document_at_def)

lemma addDocuments_example:
  "documents (addDocuments scanIndex extOf
      [(js ''a.txt'', threeParagraphs), (js ''b.txt'', twoParagraphs)] readyStore) =
        [\<lparr>id_doc = 0, file_doc = js ''a.txt'', chunkId = 0, text_doc = replicate 510 0x61,
          vector_doc = Some [510]\<rparr>,
         \<lparr>id_doc = 1, file_doc = js ''a.txt'', chunkId = 2, text_doc = replicate 511 0x62,
          vector_doc = Some [511]\<rparr>,
         \<lparr>id_doc = 2, file_doc = js ''b.txt'', chunkId = 0, text_doc = replicate 300 0x61,
          vector_doc = Some [300]\<rparr>,
         \<lparr>id_doc = 3, file_doc = js ''b.txt'', chunkId = 1, text_doc = replicate 250 0x62,
          vector_doc = Some [250]\<rparr>]"
  by (simp add: addDocument_threeParagraphs)
     (simp add: addDocument_def Let_def chunkText_twoParagraphs generateEmbedding_def
        lengthModel_def scanIndex_def extOf_b extCount_def)

lemma scanIndex_sound: "labels_sound scanIndex"
proof -
  have "p \<in> set pts" if "p \<in> set (take n (sort_key f pts))"
    for p n f and pts :: "real points"
    using that by (auto dest: in_set_takeD)
  then show ?thesis
    by (fastforce simp: labels_sound_def scanIndex_def Let_def split: if_splits)
qed

section \<open>Chunker: the size bound and the scenarios\<close>

lemma chunkText_test_nonempty: "chunkText_test t maxChunkSize \<noteq> []"
  by (simp add: chunkText_test_def Let_def)

text \<open>
  Claim C1: for \<open>maxChunkSize > 0\<close> every chunk returned by \<open>chunkText\<close> has length at
  most \<open>maxChunkSize\<close>, but for a lone paragraph longer than the bound met with an empty
  buffer, whose chunk has exactly that length.

  The function does not keep the bound. The test \<open>(currentChunk + paragraph).length <=
  maxChunkSize\<close> leaves out the two line feeds that the next statement puts between the
  buffer and the paragraph, so two paragraphs of length 3 are joined into a chunk of length
  8 under the bound 6; and a paragraph that does not fit behind a non-empty buffer becomes
  the new buffer uncut, so a paragraph of length 6 is returned whole under the bound 3.
\<close>

theorem chunkText_exceeds_maxChunkSize:
  "chunkText (js ''abc\<newline>\<newline>def'') 6 = [js ''abc\<newline>\<newline>def'']
   \<and> length (js ''abc\<newline>\<newline>def'') = 8
   \<and> chunkText (js ''ab\<newline>\<newline>cdefgh'') 3 = [js ''ab'', js ''cdefgh'']
   \<and> length (js ''cdefgh'') = 6"
  by code_simp

text \<open>
  Claim C2: \<open>chunkText\<close> on the three paragraphs \<open>P1.\<close>, \<open>P2.\<close>, \<open>P3.\<close> separated by
  blank lines, with \<open>maxChunkSize = 6\<close>, returns the three chunks \<open>P1.\<close>, \<open>P2.\<close>,
  \<open>P3.\<close>.

  The function returns two chunks: the first two paragraphs have 6 characters together,
  pass the test of the loop and are joined, with the separator, into one chunk of length 8.
\<close>

theorem chunkText_scenario_B:
  "chunkText (js ''P1.\<newline>\<newline>P2.\<newline>\<newline>P3.'') 6
     = [js ''P1.\<newline>\<newline>P2.'', js ''P3.'']"
  by code_simp

text \<open>
  Claim C3: \<open>chunkText\<close> of the empty string returns exactly one chunk, the empty string,
  and chunking never returns an empty sequence.

  \<open>VectorStore.chunkText\<close> returns no chunk at all for the empty string (and for a text
  of blank lines only): the one empty paragraph leaves the buffer empty and nothing is
  pushed. The copy of the function in the test files has the fallback to \<open>[text]\<close> and
  returns the one empty chunk.
\<close>

theorem chunkText_empty_text:
  "chunkText (js '''') 512 = []
   \<and> chunkText (js ''\<newline>\<newline>'') 512 = []
   \<and> chunkText_test (js '''') 512 = [js '''']"
  by code_simp

section \<open>Document catalog: indices and extension counts\<close>

text \<open>
  Claim C4, as it is written, asks that every chunk appended to the catalog increments the
  counter of the file's extension, so that \<open>k\<close> appended chunks raise it by \<open>k\<close>. The
  counter is a count of files: \<open>addDocument\<close> raises it once, before it chunks the
  text. The text of two paragraphs appends two chunks and raises the counter by one.
\<close>

theorem extension_count_counterexample:
  "length (documents (fst (addDocument scanIndex extOf (js ''b.txt'') twoParagraphs readyStore)))
     = length (documents readyStore) + 2
   \<and> extCount (fst (addDocument scanIndex extOf (js ''b.txt'') twoParagraphs readyStore))
        (js ''.txt'') = extCount readyStore (js ''.txt'') + 1"
  by (simp add: addDocument_twoParagraphs) (simp add: readyStore_eq extCount_def)

text \<open>
  Claim C4, amended: every append of a chunk to the catalog during \<open>addDocument\<close>
  assigns the next integer index and records the chunk, and the counter of the file's
  lower-case extension is raised once for each call of \<open>addDocument\<close>, whatever the
  number of chunks appended. On an initialised store: the counter of the extension is one
  more after the call, and no other counter changes; the catalog grows by the chunks of the
  text that can be embedded, in their order, up to the first whose point the index refuses;
  their ids are the next integers; each of them carries the file of the call, its position
  among the chunks of the text, the text of that chunk and the vector that the embedder
  gives for it; the index grows by their points; and the call returns when it has stored
  them all and throws otherwise.
\<close>

theorem addDocument_catalog_append:
  assumes "initialized st"
  shows "fileTypes (fst (addDocument B ext file t st))
           = (fileTypes st)(ext file \<mapsto> extCount st (ext file) + 1)
         \<and> extCount (fst (addDocument B ext file t st)) (ext file) = extCount st (ext file) + 1
         \<and> documents (fst (addDocument B ext file t st))
           = documents st @ stored file (length (documents st))
               (take (kept B st (embeddedChunks st t)) (embeddedChunks st t))
         \<and> map id_doc (stored file (length (documents st))
               (take (kept B st (embeddedChunks st t)) (embeddedChunks st t)))
           = [length (documents st) ..< length (documents st) + kept B st (embeddedChunks st t)]
         \<and> list_all (\<lambda>d. file_doc d = file \<and> chunkId d < length (chunkText t 512)
                 \<and> text_doc d = chunkText t 512 ! chunkId d
                 \<and> vector_doc d = generateEmbedding st (text_doc d) \<and> vector_doc d \<noteq> None)
             (stored file (length (documents st))
               (take (kept B st (embeddedChunks st t)) (embeddedChunks st t)))
         \<and> index (fst (addDocument B ext file t st))
           = map_option (\<lambda>pts. pts @ map point_of (stored file (length (documents st))
               (take (kept B st (embeddedChunks st t)) (embeddedChunks st t)))) (index st)
         \<and> snd (addDocument B ext file t st)
           = (if kept B st (embeddedChunks st t) = length (embeddedChunks st t)
              then Returned () else Threw IndexError)"
proof -
  let ?st1 = "st\<lparr>fileTypes := (fileTypes st)(ext file \<mapsto> extCount st (ext file) + 1)\<rparr>"
  have run: "addDocument B ext file t st = addChunks B file 0 (chunkText t 512) ?st1"
    using assms by (simp add: addDocument_def Let_def)
  have ft: "fileTypes (fst (addDocument B ext file t st)) = fileTypes ?st1"
    unfolding run using addChunks_frame [of B "file" 0 "chunkText t 512" ?st1] by blast
  then have counts: "fileTypes (fst (addDocument B ext file t st))
           = (fileTypes st)(ext file \<mapsto> extCount st (ext file) + 1)
         \<and> extCount (fst (addDocument B ext file t st)) (ext file) = extCount st (ext file) + 1"
    by (simp add: extCount_def)
  have ids: "map id_doc (stored file (length (documents st))
               (take (kept B st (embeddedChunks st t)) (embeddedChunks st t)))
           = [length (documents st) ..< length (documents st) + kept B st (embeddedChunks st t)]"
    using kept_le [of B st "embeddedChunks st t"] by (simp add: stored_ids min_def)
  from counts ids addDocument_exact [OF assms, of B ext "file" t]
    embeddedChunks_chunks [of "file" t st "length (documents st)"
      "kept B st (embeddedChunks st t)"]
  show ?thesis by blast
qed

theorem addDocument_catalog_append_witness:
  "initialized readyStore
   \<and> extCount (fst (addDocument scanIndex extOf (js ''b.txt'') twoParagraphs readyStore))
        (js ''.txt'') = 1
   \<and> map id_doc (documents (fst (addDocument scanIndex extOf (js ''b.txt'') twoParagraphs readyStore)))
        = [0, 1]
   \<and> map text_doc
        (documents (fst (addDocument scanIndex extOf (js ''b.txt'') twoParagraphs readyStore)))
        = chunkText twoParagraphs 512
   \<and> map chunkId
        (documents (fst (addDocument scanIndex extOf (js ''b.txt'') twoParagraphs readyStore)))
        = [0, 1]
   \<and> map vector_doc
        (documents (fst (addDocument scanIndex extOf (js ''b.txt'') twoParagraphs readyStore)))
        = [Some [300], Some [250]]"
proof -
  have ready: "initialized readyStore"
    by (simp add: readyStore_eq)
  from addDocument_catalog_append [OF ready, of scanIndex extOf "js ''b.txt''" twoParagraphs]
  have "extCount (fst (addDocument scanIndex extOf (js ''b.txt'') twoParagraphs readyStore))
          (extOf (js ''b.txt'')) = extCount readyStore (extOf (js ''b.txt'')) + 1"
    by blast
  then have "extCount (fst (addDocument scanIndex extOf (js ''b.txt'') twoParagraphs readyStore))
        (js ''.txt'') = 1"
    by (simp add: extOf_b) (simp add: readyStore_eq extCount_def)
  with ready show ?thesis
    by (simp add: addDocument_twoParagraphs chunkText_twoParagraphs)
qed

section \<open>Search: scores, threshold and the failed query\<close>

text \<open>
  Claim C5: every result that \<open>search\<close> returns has the score \<open>1 / (1 + d)\<close>, \<open>d\<close>
  being the distance that the index reported for that candidate, and no result has a score
  below the threshold. The result at hand comes from a position \<open>i\<close> of the answer of
  the index, asked for \<open>min(numResults, documents.length)\<close> neighbours of the embedded
  query: its score is made of the \<open>i\<close>-th distance and its document is read at the
  \<open>i\<close>-th label.
\<close>

theorem search_score_and_threshold:
  fixes threshold :: "'n::{one,plus,inverse,ord}"
  assumes "search B st query numResults threshold = Returned results"
    and "r \<in> set results"
  shows "threshold \<le> score r
         \<and> (\<exists>pts q res i.
               index st = Some pts \<and> generateEmbedding st query = Some q
               \<and> searchKnn B pts q (min numResults (int (length (documents st)))) = Some res
               \<and> i < length (neighbors res) \<and> i < length (distances res)
               \<and> score r = 1 / (1 + distances res ! i)
               \<and> document r = document_at (documents st) (neighbors res ! i))"
proof -
  from assms(2) have "results \<noteq> []" by auto
  with assms(1) obtain pts q res where
    ix: "index st = Some pts" and q: "generateEmbedding st query = Some q"
    and res: "searchKnn B pts q (min numResults (int (length (documents st)))) = Some res"
    and rs: "results = filter (\<lambda>result. threshold \<le> score result)
               (map (\<lambda>(idx, distance). \<lparr>score = 1 / (1 + distance),
                        document = document_at (documents st) idx\<rparr>)
                  (zip (neighbors res) (distances res)))"
    by (rule search_returned)
  from assms(2) rs have th: "threshold \<le> score r" by simp
  from assms(2) rs obtain idx d where
    pair: "(idx, d) \<in> set (zip (neighbors res) (distances res))"
    and r: "r = \<lparr>score = 1 / (1 + d), document = document_at (documents st) idx\<rparr>"
    by auto
  from pair obtain i where "i < length (neighbors res)" "i < length (distances res)"
    "neighbors res ! i = idx" "distances res ! i = d"
    by (auto simp: in_set_zip)
  with ix q res th r show ?thesis by auto
qed

theorem search_score_and_threshold_witness:
  "search scanIndex filledStore (replicate 510 0x71) 5 (7 / 10)
     = Returned [\<lparr>score = 1, document = document_at (documents filledStore) 0\<rparr>]
   \<and> (7 / 10 :: real) \<le> score \<lparr>score = 1, document = document_at (documents filledStore) 0\<rparr>
   \<and> searchKnn scanIndex [([510], 0), ([511], 1)] [510] 2
        = Some \<lparr>neighbors = [0, 1], distances = [0, 1]\<rparr>"
proof -
  let ?r = "\<lparr>score = 1 :: real, document = document_at (documents filledStore) 0\<rparr>"
  have "document_at (documents filledStore) 0
          = Some \<lparr>id_doc = 0, file_doc = js ''a.txt'', chunkId = 0,
              text_doc = replicate 510 0x61, vector_doc = Some [510]\<rparr>"
    by (simp add: filledStore_eq document_at_def)
  then have run: "search scanIndex filledStore (replicate 510 0x71) 5 (7 / 10) = Returned [?r]"
    by (simp only: search_filledStore)
  have "?r \<in> set [?r]"
    by simp
  with run have "7 / 10 \<le> score ?r"
    using search_score_and_threshold [of scanIndex filledStore "replicate 510 0x71" 5 "7 / 10"
        "[?r]" ?r]
    by blast
  moreover have "searchKnn scanIndex [([510], 0), ([511], 1)] [510] 2
        = Some \<lparr>neighbors = [0, 1], distances = [0, 1]\<rparr>"
    by (simp add: scanIndex_def sqdist_def)
  ultimately show ?thesis using run by blast
qed

text \<open>
  Claim C6, as it is written, asks that \<open>search\<close> fails for every query that the
  embedder cannot embed. \<open>search\<close> looks at the catalog first: on an empty catalog it
  returns the empty result and never calls the embedder.
\<close>

theorem search_failed_embedding_counterexample:
  "generateEmbedding failingStore (js ''query'') = None
   \<and> search scanIndex failingStore (js ''query'') 5 (7 / 10) = Returned []"
  by (simp add: failingStore_eq generateEmbedding_def failingModel_def search_def)

text \<open>
  Claim C6, amended: on an initialised store with an index and a catalog that is not
  empty, \<open>search\<close> throws (\<open>Failed to generate embedding for query\<close>) for every query
  that the embedder cannot embed; on an empty catalog it returns the empty result instead.
\<close>

theorem search_embedding_failure:
  fixes threshold :: "'n::{one,plus,inverse,ord}"
  assumes "initialized st" and "generateEmbedding st query = None"
  shows "search B st query numResults threshold
           = (if index st = None \<or> documents st = [] then Returned []
              else Threw EmbeddingFailed)"
  using assms by (simp add: search_def split: option.splits)

theorem search_embedding_failure_witness:
  "initialized filledStore \<and> generateEmbedding filledStore (js ''bad'') = None
   \<and> index filledStore \<noteq> None \<and> documents filledStore \<noteq> []
   \<and> search scanIndex filledStore (js ''bad'') 5 (7 / 10) = Threw EmbeddingFailed"
  using search_embedding_failure [of filledStore "js ''bad''" scanIndex 5 "7 / 10"]
  by (simp add: filledStore_eq generateEmbedding_def lengthModel_def js_def)

section \<open>Adding a document: failed embeddings and catalog indices\<close>

text \<open>
  Claim C7: when the embedding of a chunk fails during \<open>addDocument\<close>, the chunk is
  skipped, added neither to the catalog nor to the index; the chunks after it are still
  processed, and the chunks added before stay. On an initialised store with an index: the
  chunks that can be embedded are offered to the index in their order, and the catalog and
  the index grow by those before the first that the index refuses, nothing being taken
  back; the call returns when none is refused and throws otherwise. So when the index
  accepts the points that this call offers, the call returns and the catalog and the
  index have grown by exactly the chunks whose embedding succeeded, each with its
  position among all chunks of the text, its text and its vector. In the example the
  middle one of three chunks fails: an index with room for 1000 points ends with the
  chunks 0 and 2, an index with room for one point keeps chunk 0 and throws at chunk 2.
\<close>

theorem addDocument_skips_failed_embeddings:
  assumes "initialized st" and "index st = Some pts"
  shows "documents (fst (addDocument B ext file t st))
           = documents st @ stored file (length (documents st))
               (take (accepted B pts (length (documents st)) (embeddedChunks st t))
                  (embeddedChunks st t))
         \<and> index (fst (addDocument B ext file t st))
           = Some (pts @ map point_of (stored file (length (documents st))
               (take (accepted B pts (length (documents st)) (embeddedChunks st t))
                  (embeddedChunks st t))))
         \<and> snd (addDocument B ext file t st)
           = (if accepted B pts (length (documents st)) (embeddedChunks st t)
                   = length (embeddedChunks st t)
              then Returned () else Threw IndexError)
         \<and> ((\<forall>k < length (embeddedChunks st t).
                addPoint_ok B
                  (pts @ map point_of (stored file (length (documents st))
                     (take k (embeddedChunks st t))))
                  (snd (snd (embeddedChunks st t ! k))) (length (documents st) + k))
              \<longrightarrow> snd (addDocument B ext file t st) = Returned ()
                \<and> documents (fst (addDocument B ext file t st))
                  = documents st @ stored file (length (documents st)) (embeddedChunks st t)
                \<and> index (fst (addDocument B ext file t st))
                  = Some (pts @ map point_of
                      (stored file (length (documents st)) (embeddedChunks st t))))
         \<and> map text_doc (stored file (length (documents st)) (embeddedChunks st t))
           = filter (\<lambda>c. generateEmbedding st c \<noteq> None) (chunkText t 512)
         \<and> list_all (\<lambda>d. file_doc d = file \<and> chunkId d < length (chunkText t 512)
                 \<and> text_doc d = chunkText t 512 ! chunkId d
                 \<and> vector_doc d = generateEmbedding st (text_doc d) \<and> vector_doc d \<noteq> None)
             (stored file (length (documents st)) (embeddedChunks st t))"
proof -
  let ?E = "embeddedChunks st t"
  let ?n = "length (documents st)"
  have k: "kept B st ?E = accepted B pts ?n ?E"
    using assms(2) by (simp add: kept_def)
  have exact: "documents (fst (addDocument B ext file t st))
           = documents st @ stored file ?n (take (accepted B pts ?n ?E) ?E)
         \<and> index (fst (addDocument B ext file t st))
           = Some (pts @ map point_of (stored file ?n (take (accepted B pts ?n ?E) ?E)))
         \<and> snd (addDocument B ext file t st)
           = (if accepted B pts ?n ?E = length ?E then Returned () else Threw IndexError)"
    using addDocument_exact [OF assms(1), of B ext "file" t] assms(2) unfolding k by simp
  have offered: "snd (addDocument B ext file t st) = Returned ()
                \<and> documents (fst (addDocument B ext file t st))
                  = documents st @ stored file ?n ?E
                \<and> index (fst (addDocument B ext file t st))
                  = Some (pts @ map point_of (stored file ?n ?E))"
    if "\<forall>k < length ?E.
          addPoint_ok B (pts @ map point_of (stored file ?n (take k ?E)))
            (snd (snd (?E ! k))) (?n + k)"
  proof -
    from that have "accepted B pts ?n ?E = length ?E"
      by (rule accepted_all)
    with exact show ?thesis by simp
  qed
  have texts: "map text_doc (stored file ?n ?E)
                 = filter (\<lambda>c. generateEmbedding st c \<noteq> None) (chunkText t 512)"
    by (simp add: embeddedChunks_def stored_text)
  have chunks: "list_all (\<lambda>d. file_doc d = file \<and> chunkId d < length (chunkText t 512)
                 \<and> text_doc d = chunkText t 512 ! chunkId d
                 \<and> vector_doc d = generateEmbedding st (text_doc d) \<and> vector_doc d \<noteq> None)
             (stored file ?n ?E)"
    using embeddedChunks_chunks [of "file" t st ?n "length ?E"] by simp
  from exact offered texts chunks show ?thesis by blast
qed

theorem addDocument_skips_failed_embeddings_witness:
  "initialized readyStore \<and> index readyStore = Some []
   \<and> chunkText threeParagraphs 512 = [replicate 510 0x61, js ''bad'', replicate 511 0x62]
   \<and> generateEmbedding readyStore (js ''bad'') = None
   \<and> snd (addDocument (cappedIndex 1000) extOf (js ''a.txt'') threeParagraphs readyStore)
       = Returned ()
   \<and> map text_doc (documents (fst
        (addDocument (cappedIndex 1000) extOf (js ''a.txt'') threeParagraphs readyStore)))
       = [replicate 510 0x61, replicate 511 0x62]
   \<and> map chunkId (documents (fst
        (addDocument (cappedIndex 1000) extOf (js ''a.txt'') threeParagraphs readyStore)))
       = [0, 2]
   \<and> index (fst
        (addDocument (cappedIndex 1000) extOf (js ''a.txt'') threeParagraphs readyStore))
       = Some [([510], 0), ([511], 1)]
   \<and> snd (addDocument (cappedIndex 1) extOf (js ''a.txt'') threeParagraphs readyStore)
       = Threw IndexError
   \<and> map chunkId (documents (fst
        (addDocument (cappedIndex 1) extOf (js ''a.txt'') threeParagraphs readyStore)))
       = [0]"
proof -
  have ready: "initialized readyStore" "index readyStore = Some []"
    by (simp_all add: readyStore_eq)
  have docs: "documents readyStore = []"
    by (simp add: readyStore_eq)
  have bad: "generateEmbedding readyStore (js ''bad'') = None"
    by (simp add: generateEmbedding_def readyStore_eq lengthModel_def js_def)
  from addDocument_skips_failed_embeddings [OF ready, of "cappedIndex 1000" extOf
      "js ''a.txt''" threeParagraphs]
    addDocument_skips_failed_embeddings [OF ready, of "cappedIndex 1" extOf
      "js ''a.txt''" threeParagraphs]
    ready bad
  show ?thesis
    unfolding embeddedChunks_readyStore_three docs
    by (simp add: cappedIndex_def chunkText_threeParagraphs point_of_def)
qed

text \<open>
  Claim C8: from an empty store on, with no \<open>clear\<close> in between, the ids of the \<open>N\<close>
  documents that calls of \<open>addDocument\<close> have inserted are exactly \<open>0, \<dots>, N - 1\<close>,
  also when the embedding of some chunks failed in between and they were skipped. The
  store is any initialised store with an empty catalog and an empty index (a new store
  after \<open>init\<close>, or any store after \<open>clear\<close>), the calls are any, with any model and any
  index library; \<open>N\<close> is the length of the catalog after the calls.
\<close>

theorem catalog_ids_consecutive:
  assumes "initialized st" and "documents st = []" and "index st = Some []"
  shows "map id_doc (documents (addDocuments B ext calls st))
           = [0 ..< length (documents (addDocuments B ext calls st))]
         \<and> id_doc ` set (documents (addDocuments B ext calls st))
           = {0 ..< length (documents (addDocuments B ext calls st))}"
proof -
  from assms have "store_inv st"
    by (simp add: store_inv_def)
  then have "store_inv (addDocuments B ext calls st)"
    by (rule addDocuments_inv)
  then have ids: "map id_doc (documents (addDocuments B ext calls st))
           = [0 ..< length (documents (addDocuments B ext calls st))]"
    by (simp add: store_inv_def)
  then have "id_doc ` set (documents (addDocuments B ext calls st))
           = {0 ..< length (documents (addDocuments B ext calls st))}"
    by (metis set_map set_upt)
  with ids show ?thesis by blast
qed

theorem catalog_ids_consecutive_witness:
  "initialized readyStore \<and> documents readyStore = [] \<and> index readyStore = Some []
   \<and> map id_doc (documents (addDocuments scanIndex extOf
        [(js ''a.txt'', threeParagraphs), (js ''b.txt'', twoParagraphs)] readyStore))
       = [0, 1, 2, 3]
   \<and> map chunkId (documents (addDocuments scanIndex extOf
        [(js ''a.txt'', threeParagraphs), (js ''b.txt'', twoParagraphs)] readyStore))
       = [0, 2, 0, 1]"
proof -
  have ready: "initialized readyStore" "documents readyStore = []" "index readyStore = Some []"
    by (simp_all add: readyStore_eq)
  with catalog_ids_consecutive [OF ready, of scanIndex extOf
      "[(js ''a.txt'', threeParagraphs), (js ''b.txt'', twoParagraphs)]"]
  show ?thesis
    by (simp add: addDocuments_example del: addDocuments.simps)
qed

section \<open>Clearing the store\<close>

text \<open>
  Claim C9: \<open>clear\<close> is idempotent and resets what can be observed: after one
  \<open>clear\<close>, and as well after two, \<open>getStats\<close> reports no document and no extension
  and \<open>getIndexedFiles\<close> lists no file, whatever was added before.
\<close>

theorem clear_resets:
  "documentCount (getStats (clear st)) = 0
   \<and> fileTypes_stats (getStats (clear st)) = Map.empty
   \<and> getIndexedFiles (clear st) = []
   \<and> clear (clear st) = clear st
   \<and> getStats (clear (clear st)) = getStats (clear st)
   \<and> getIndexedFiles (clear (clear st)) = getIndexedFiles (clear st)"
  by (simp add: clear_def getStats_def getIndexedFiles_def)

theorem clear_resets_witness:
  "documentCount (getStats filledStore) = 2
   \<and> fileTypes_stats (getStats filledStore) (js ''.txt'') = Some 1
   \<and> getIndexedFiles filledStore = [js ''a.txt'']
   \<and> documentCount (getStats (clear filledStore)) = 0
   \<and> fileTypes_stats (getStats (clear filledStore)) (js ''.txt'') = None
   \<and> getIndexedFiles (clear filledStore) = []
   \<and> getIndexedFiles (clear (clear filledStore)) = []"
  using clear_resets [of filledStore]
  by (simp add: filledStore_eq getStats_def getIndexedFiles_def)

section \<open>The invariant of catalog and index\<close>

text \<open>
  Claim C10: every public operation keeps the invariant that the \<open>i\<close>-th document has
  the id \<open>i\<close> and a vector, and that the index holds as many points as the catalog holds
  documents; so every label that the index returns during \<open>search\<close> is the index of a
  document of the catalog. \<open>store_inv\<close> is this invariant together with what makes it
  inductive (the points of the index are the vectors of the documents under their ids). It
  holds of the new store and is kept by \<open>init\<close>, \<open>addDocument\<close> (also when the index
  throws) and \<open>clear\<close>; \<open>search\<close> leaves the store as it is, and with a library that
  returns only labels of points that were added, each of its results carries a document
  of the catalog.
\<close>

theorem store_invariant_kept:
  fixes threshold :: "'n::{one,plus,inverse,ord}"
  assumes "store_inv st"
  shows "(\<forall>i < length (documents st).
            id_doc (documents st ! i) = i \<and> vector_doc (documents st ! i) \<noteq> None)
         \<and> indexed_count st = length (documents st)
         \<and> store_inv (fst (addDocument B ext file t st))
         \<and> store_inv (clear st)
         \<and> (\<not> initialized st \<longrightarrow> store_inv (init l st))
         \<and> (labels_sound B \<longrightarrow>
              (\<forall>results. search B st query numResults threshold = Returned results \<longrightarrow>
                 list_all (\<lambda>r. \<exists>d. document r = Some d \<and> d \<in> set (documents st)
                                  \<and> vector_doc d \<noteq> None) results))"
proof -
  have "list_all (\<lambda>r. \<exists>d. document r = Some d \<and> d \<in> set (documents st)
                          \<and> vector_doc d \<noteq> None) results"
    if "labels_sound B" "search B st query numResults threshold = Returned results"
    for results
    unfolding list_all_iff using search_hydrates [OF assms that] by blast
  then show ?thesis
    using assms store_inv_nth [OF assms] store_inv_count [OF assms]
      addDocument_inv [OF assms, of B ext "file" t] clear_inv [OF assms]
      init_inv [OF assms, of l]
    by blast
qed

theorem store_invariant_kept_witness:
  "store_inv filledStore \<and> labels_sound scanIndex
   \<and> indexed_count filledStore = 2 \<and> length (documents filledStore) = 2
   \<and> store_inv (fst (addDocument scanIndex extOf (js ''b.txt'') twoParagraphs filledStore))
   \<and> store_inv (clear filledStore)
   \<and> search scanIndex filledStore (replicate 510 0x71) 5 (7 / 10)
       = Returned [\<lparr>score = 1, document = Some \<lparr>id_doc = 0, file_doc = js ''a.txt'',
            chunkId = 0, text_doc = replicate 510 0x61, vector_doc = Some [510]\<rparr>\<rparr>]"
proof -
  have "store_inv readyStore"
    by (simp add: readyStore_eq store_inv_def)
  then have inv: "store_inv filledStore"
    unfolding filledStore_def by (rule addDocument_inv)
  from store_invariant_kept [OF inv, of scanIndex extOf "js ''b.txt''" twoParagraphs
      "Loaded lengthModel" "replicate 510 0x71" 5 "7 / 10"]
  have "store_inv (fst (addDocument scanIndex extOf (js ''b.txt'') twoParagraphs filledStore))"
    and "store_inv (clear filledStore)" and "indexed_count filledStore = length (documents filledStore)"
    by blast+
  moreover have "length (documents filledStore) = 2"
    by (simp add: filledStore_eq)
  ultimately show ?thesis
    using inv scanIndex_sound search_filledStore by simp
qed

end
